theory Spec2Isabelle
  imports Complex_Main "HOL-Library.Multiset" "HOL-Library.Sublist" "HOL-Library.Product_Lexorder"
begin

section \<open>JavaScript values used by the storefront\<close>

subsection \<open>Numbers\<close>

text \<open>
  A JavaScript \<^verbatim>\<open>number\<close> is a double: a finite value, one of the two infinities
  (the source writes \<^verbatim>\<open>Infinity\<close> as the default upper price bound) or NaN.
  Finite doubles are rationals, so \<open>Fin\<close> carries a \<^typ>\<open>rat\<close>. The engine only
  compares numbers and takes the sign of a difference. A rounded IEEE difference of two
  finite doubles has the sign of the exact difference (it is zero only for equal
  operands, and an overflow keeps the sign), so the exact difference below decides every
  branch as the double does.
\<close>

datatype jsnum = NaN | NegInf | Fin rat | PosInf

text \<open>\<^verbatim>\<open>a <= b\<close>: false as soon as one operand is NaN.\<close>

fun num_le :: "jsnum \<Rightarrow> jsnum \<Rightarrow> bool" where
  "num_le NaN _ = False"
| "num_le _ NaN = False"
| "num_le NegInf _ = True"
| "num_le _ PosInf = True"
| "num_le (Fin a) (Fin b) = (a \<le> b)"
| "num_le (Fin _) NegInf = False"
| "num_le PosInf (Fin _) = False"
| "num_le PosInf NegInf = False"

text \<open>\<^verbatim>\<open>a < b\<close>.\<close>

fun num_lt :: "jsnum \<Rightarrow> jsnum \<Rightarrow> bool" where
  "num_lt NaN _ = False"
| "num_lt _ NaN = False"
| "num_lt PosInf _ = False"
| "num_lt _ NegInf = False"
| "num_lt (Fin a) (Fin b) = (a < b)"
| "num_lt NegInf _ = True"
| "num_lt (Fin _) PosInf = True"

text \<open>\<^verbatim>\<open>a >= b\<close> and \<^verbatim>\<open>a > b\<close>.\<close>

definition num_ge :: "jsnum \<Rightarrow> jsnum \<Rightarrow> bool" where
  "num_ge a b = num_le b a"

definition num_gt :: "jsnum \<Rightarrow> jsnum \<Rightarrow> bool" where
  "num_gt a b = num_lt b a"

text \<open>\<^verbatim>\<open>a - b\<close>: infinities of the same sign cancel to NaN.\<close>

fun num_sub :: "jsnum \<Rightarrow> jsnum \<Rightarrow> jsnum" where
  "num_sub NaN _ = NaN"
| "num_sub _ NaN = NaN"
| "num_sub (Fin a) (Fin b) = Fin (a - b)"
| "num_sub PosInf PosInf = NaN"
| "num_sub NegInf NegInf = NaN"
| "num_sub PosInf _ = PosInf"
| "num_sub NegInf _ = NegInf"
| "num_sub (Fin _) PosInf = NegInf"
| "num_sub (Fin _) NegInf = PosInf"

subsection \<open>Strings\<close>

text \<open>
  Strings are lists of characters, and a character is a code unit below 256: the strings
  of the model are the JavaScript strings over Latin-1. On these \<^verbatim>\<open>toLowerCase\<close>
  works character by character: it moves the capitals A to Z (65 to 90), the accented
  capitals from 192 to 214 and those from 216 to 222 up by 32 and keeps every other
  character, the multiplication sign 215 and the small letters 181, 223 and 255 among
  them.
\<close>

definition lowerChar :: "char \<Rightarrow> char" where
  "lowerChar c =
     (let n = (of_char c :: nat)
      in if (65 \<le> n \<and> n \<le> 90) \<or> (192 \<le> n \<and> n \<le> 214) \<or> (216 \<le> n \<and> n \<le> 222)
         then char_of (n + 32) else c)"

text \<open>
  \<^verbatim>\<open>toUpperCase\<close> is called on the characters of a base 36 numeral only (line 114):
  the digits, the point and the letters a to z, which it moves down by 32.
\<close>

definition upperChar :: "char \<Rightarrow> char" where
  "upperChar c =
     (let n = (of_char c :: nat) in if 97 \<le> n \<and> n \<le> 122 then char_of (n - 32) else c)"

definition toLowerCase :: "string \<Rightarrow> string" where
  "toLowerCase s = map lowerChar s"

definition toUpperCase :: "string \<Rightarrow> string" where
  "toUpperCase s = map upperChar s"

text \<open>\<^verbatim>\<open>s.includes(t)\<close> on strings: \<open>t\<close> occurs in \<open>s\<close> at some position.\<close>

fun str_includes :: "string \<Rightarrow> string \<Rightarrow> bool" where
  "str_includes [] t = (t = [])"
| "str_includes (c # s) t = (prefix t (c # s) \<or> str_includes s t)"

text \<open>\<^verbatim>\<open>xs.includes(x)\<close> on an array of strings.\<close>

definition arr_includes :: "string list \<Rightarrow> string \<Rightarrow> bool" where
  "arr_includes xs x = (x \<in> set xs)"

text \<open>\<^verbatim>\<open>s.startsWith(t)\<close>.\<close>

definition startsWith :: "string \<Rightarrow> string \<Rightarrow> bool" where
  "startsWith s t = prefix t s"

text \<open>\<^verbatim>\<open>s.substr(start, len)\<close> for a start inside or past the string.\<close>

definition substr :: "string \<Rightarrow> nat \<Rightarrow> nat \<Rightarrow> string" where
  "substr s start len = take len (drop start s)"

section \<open>Entity types (types.ts)\<close>

record Product =
  pid :: string
  name :: string
  description :: string
  price :: jsnum
  rating :: jsnum
  imageUrls :: "string list"
  category :: string
  brand :: string
  stock :: jsnum

datatype UserRole = RoleAdmin | RoleManager | RoleEditor

datatype NotificationType = NOrder | NStock | NReview

record AdminNotification =
  nid :: string
  ntype :: NotificationType
  message :: string
  date :: string
  isRead :: bool

section \<open>Filter and sort engine\<close>

text \<open>The filter and sort state of \<open>App\<close>, lines 43 to 48.\<close>

record Criteria =
  searchTerm :: string
  selectedCategories :: "string list"
  selectedBrands :: "string list"
  priceRange :: "jsnum \<times> jsnum"
  minRating :: jsnum

text \<open>The callback given to \<^verbatim>\<open>products.filter\<close>, lines 128 to 135.\<close>

definition matchesFilter :: "Criteria \<Rightarrow> Product \<Rightarrow> bool" where
  "matchesFilter c p =
     (let matchesSearch = str_includes (toLowerCase (name p)) (toLowerCase (searchTerm c));
          matchesCategory = (length (selectedCategories c) = 0
                             \<or> arr_includes (selectedCategories c) (category p));
          matchesBrand = (length (selectedBrands c) = 0
                          \<or> arr_includes (selectedBrands c) (brand p));
          matchesPrice = (num_ge (price p) (fst (priceRange c))
                          \<and> num_le (price p) (snd (priceRange c)));
          matchesRating = num_ge (rating p) (minRating c)
      in matchesSearch \<and> matchesCategory \<and> matchesBrand \<and> matchesPrice \<and> matchesRating)"

text \<open>The comparator given to \<^verbatim>\<open>sort\<close>, lines 136 to 143; \<open>sortBy\<close> is a string.\<close>

definition compareFn :: "string \<Rightarrow> Product \<Rightarrow> Product \<Rightarrow> jsnum" where
  "compareFn sortBy a b =
     (if sortBy = ''price_asc'' then num_sub (price a) (price b)
      else if sortBy = ''price_desc'' then num_sub (price b) (price a)
      else if sortBy = ''rating_desc'' then num_sub (rating b) (rating a)
      else Fin 0)"

text \<open>
  \<^verbatim>\<open>Array.prototype.sort\<close> with a comparator. The language fixes how the comparator's
  result is read (\<open>SortCompare\<close>: a NaN result counts as \<open>+0\<close>) and that the sort is
  stable; the algorithm is the engine's. The model is the stable insertion sort: an
  element moves behind exactly the elements it compares greater than. For a comparator
  that orders the elements consistently, as the three comparators do on lists without
  NaN keys, every stable sort returns the same list.
\<close>

definition SortCompare :: "('a \<Rightarrow> 'a \<Rightarrow> jsnum) \<Rightarrow> 'a \<Rightarrow> 'a \<Rightarrow> jsnum" where
  "SortCompare comparefn x y = (let v = comparefn x y in if v = NaN then Fin 0 else v)"

fun sort_insert :: "('a \<Rightarrow> 'a \<Rightarrow> jsnum) \<Rightarrow> 'a \<Rightarrow> 'a list \<Rightarrow> 'a list" where
  "sort_insert comparefn x [] = [x]"
| "sort_insert comparefn x (y # ys) =
     (if num_gt (SortCompare comparefn x y) (Fin 0)
      then y # sort_insert comparefn x ys
      else x # y # ys)"

fun array_sort :: "('a \<Rightarrow> 'a \<Rightarrow> jsnum) \<Rightarrow> 'a list \<Rightarrow> 'a list" where
  "array_sort comparefn [] = []"
| "array_sort comparefn (x # xs) = sort_insert comparefn x (array_sort comparefn xs)"

text \<open>
  Two keys into a linear order, ascending and descending, that place the numbers other
  than NaN as \<^verbatim>\<open><=\<close> does. They serve to compare the model of the sort with the
  stable sort of the list library.
\<close>

fun rank :: "jsnum \<Rightarrow> nat \<times> rat" where
  "rank NegInf = (0, 0)"
| "rank (Fin a) = (1, a)"
| "rank PosInf = (2, 0)"
| "rank NaN = (3, 0)"

fun rankDesc :: "jsnum \<Rightarrow> nat \<times> rat" where
  "rankDesc PosInf = (0, 0)"
| "rankDesc (Fin a) = (1, - a)"
| "rankDesc NegInf = (2, 0)"
| "rankDesc NaN = (3, 0)"

text \<open>The value of \<open>filteredAndSortedProducts\<close>, as a function of the lists' contents.\<close>

definition filterProducts :: "Product list \<Rightarrow> Criteria \<Rightarrow> Product list" where
  "filterProducts products c = filter (matchesFilter c) products"

definition filteredAndSortedProducts ::
  "Product list \<Rightarrow> Criteria \<Rightarrow> string \<Rightarrow> Product list" where
  "filteredAndSortedProducts products c sortBy =
     array_sort (compareFn sortBy) (filterProducts products c)"

text \<open>
  The five criteria in the words of the specification: the name holds the search term
  somewhere when letter case is ignored; the category (brand) is selected or nothing is
  selected; the price lies in the closed interval; the rating reaches the threshold.

  Letter case is given by the table of the capital and small forms of each letter: the
  26 letters of the alphabet and the accented letters of Latin-1 (capitals 192 to 214 and
  216 to 222, each with its small form 32 above). Two characters are the same letter when
  they are equal or the two forms of one entry; two strings are equal with case ignored
  when they have the same length and agree letter by letter. None of this refers to the
  functions that model the code.
\<close>

definition casePairs :: "(char \<times> char) list" where
  "casePairs =
     zip ''ABCDEFGHIJKLMNOPQRSTUVWXYZ'' ''abcdefghijklmnopqrstuvwxyz''
     @ map (\<lambda>i. (char_of (192 + i), char_of (224 + i))) [0..<23]
     @ map (\<lambda>i. (char_of (216 + i), char_of (248 + i))) [0..<7]"

definition sameLetter :: "char \<Rightarrow> char \<Rightarrow> bool" where
  "sameLetter c d = (c = d \<or> (c, d) \<in> set casePairs \<or> (d, c) \<in> set casePairs)"

definition equalIgnoringCase :: "string \<Rightarrow> string \<Rightarrow> bool" where
  "equalIgnoringCase s t = list_all2 sameLetter s t"

definition search_matches :: "string \<Rightarrow> string \<Rightarrow> bool" where
  "search_matches term nm =
     (\<exists>pre mid suf. nm = pre @ mid @ suf \<and> equalIgnoringCase mid term)"



subsection \<open>Facets\<close>

text \<open>
  \<^verbatim>\<open>Array.from(new Set(xs))\<close>: a \<^verbatim>\<open>Set\<close> keeps its members in insertion order and
  \<^verbatim>\<open>add\<close> ignores a value it already holds.
\<close>

definition set_add :: "'a list \<Rightarrow> 'a \<Rightarrow> 'a list" where
  "set_add s x = (if x \<in> set s then s else s @ [x])"

definition new_Set :: "'a list \<Rightarrow> 'a list" where
  "new_Set xs = foldl set_add [] xs"

definition categories :: "Product list \<Rightarrow> string list" where
  "categories ps = new_Set (map category ps)"

definition brands :: "Product list \<Rightarrow> string list" where
  "brands ps = new_Set (map brand ps)"

subsection \<open>The derivation on a store of arrays\<close>

text \<open>
  Arrays are objects: \<^verbatim>\<open>filter\<close> allocates a new array and \<^verbatim>\<open>sort\<close> reorders the
  array it is called on and returns that same array. The store is the list of all arrays
  allocated so far, a reference is an index into it. An operation on a reference that
  the store does not hold has no result.
\<close>

type_synonym ref = nat
type_synonym store = "Product list list"

definition deref :: "store \<Rightarrow> ref \<Rightarrow> Product list option" where
  "deref h r = (if r < length h then Some (h ! r) else None)"

definition alloc :: "store \<Rightarrow> Product list \<Rightarrow> store \<times> ref" where
  "alloc h xs = (h @ [xs], length h)"

definition array_filter_op :: "(Product \<Rightarrow> bool) \<Rightarrow> ref \<Rightarrow> store \<Rightarrow> (store \<times> ref) option" where
  "array_filter_op cb r h =
     (case deref h r of None \<Rightarrow> None | Some xs \<Rightarrow> Some (alloc h (filter cb xs)))"

definition array_sort_op ::
  "(Product \<Rightarrow> Product \<Rightarrow> jsnum) \<Rightarrow> ref \<Rightarrow> store \<Rightarrow> (store \<times> ref) option" where
  "array_sort_op comparefn r h =
     (case deref h r of None \<Rightarrow> None | Some xs \<Rightarrow> Some (h[r := array_sort comparefn xs], r))"

definition derive_op :: "ref \<Rightarrow> Criteria \<Rightarrow> string \<Rightarrow> store \<Rightarrow> (store \<times> ref) option" where
  "derive_op r c sortBy h =
     (case array_filter_op (matchesFilter c) r h of
        None \<Rightarrow> None
      | Some (h1, r1) \<Rightarrow> array_sort_op (compareFn sortBy) r1 h1)"

section \<open>The view controller\<close>

datatype View = Store | Admin | Dashboard | Checkout | Confirmation | Contact

fun viewName :: "View \<Rightarrow> string" where
  "viewName Store = ''store''"
| "viewName Admin = ''admin''"
| "viewName Dashboard = ''dashboard''"
| "viewName Checkout = ''checkout''"
| "viewName Confirmation = ''confirmation''"
| "viewName Contact = ''contact''"

fun roleName :: "UserRole \<Rightarrow> string" where
  "roleName RoleAdmin = ''admin''"
| "roleName RoleManager = ''manager''"
| "roleName RoleEditor = ''editor''"

text \<open>
  What \<open>useAuth\<close> exposes to \<open>App\<close>. The hook is not part of the sources; the role is
  typed by \<open>UserRole\<close> of types.ts, or absent.
\<close>

record Auth =
  isLoggedIn :: bool
  role :: "UserRole option"
  user :: "string option"

text \<open>
  The state of \<open>App\<close>: its \<^verbatim>\<open>useState\<close> cells, the slices of the hooks that it reads,
  and the observable traces of its effects: the lines written with
  \<^verbatim>\<open>console.error\<close>, and for each of the two loaders the number of calls made and the
  number still in flight.
\<close>

record App =
  products :: "Product list"
  isLoading :: bool
  error :: "string option"
  view :: View
  isCartOpen :: bool
  isLoginModalOpen :: bool
  lastOrderId :: "string option"
  isMobileMenuOpen :: bool
  adminNotifications :: "AdminNotification list"
  criteria :: Criteria
  sortBy :: string
  auth :: Auth
  itemCount :: nat
  console :: "string list"
  productCalls :: nat
  productPending :: nat
  notifCalls :: nat
  notifPending :: nat

text \<open>The first render, lines 25 to 48; the hooks restore their slices from storage.\<close>

definition initialApp :: "Auth \<Rightarrow> nat \<Rightarrow> App" where
  "initialApp a n =
     \<lparr>products = [], isLoading = True, error = None, view = Store, isCartOpen = False,
      isLoginModalOpen = False, lastOrderId = None, isMobileMenuOpen = False,
      adminNotifications = [],
      criteria = \<lparr>searchTerm = [], selectedCategories = [], selectedBrands = [],
                  priceRange = (Fin 0, PosInf), minRating = Fin 0\<rparr>,
      sortBy = ''relevance'', auth = a, itemCount = n, console = [],
      productCalls = 0, productPending = 0, notifCalls = 0, notifPending = 0\<rparr>"

definition loggedOut :: Auth where
  "loggedOut = \<lparr>isLoggedIn = False, role = None, user = None\<rparr>"

subsection \<open>Hook operations\<close>

text \<open>
  Modelled from the spec: \<open>clearCart\<close> of \<open>useCart\<close> is not in the sources
  (``cart exposes item count + clear''); clearing leaves no item.
\<close>

definition clearCart :: "App \<Rightarrow> App" where
  "clearCart s = s\<lparr>itemCount := 0\<rparr>"

text \<open>
  Modelled from the spec: \<open>login\<close> and \<open>logout\<close> of \<open>useAuth\<close> are not in the sources
  (``auth exposes logged-in flag, role, display name, login/logout'').
\<close>

definition logout :: "App \<Rightarrow> App" where
  "logout s = s\<lparr>auth := loggedOut\<rparr>"

definition login :: "string \<Rightarrow> UserRole \<Rightarrow> App \<Rightarrow> App" where
  "login u r s = s\<lparr>auth := \<lparr>isLoggedIn = True, role = Some r, user = Some u\<rparr>\<rparr>"

subsection \<open>Order identifiers\<close>

text \<open>The decimal numeral of an integer, as a template literal prints \<^verbatim>\<open>Date.now()\<close>.\<close>

definition digitChar :: "nat \<Rightarrow> char" where
  "digitChar d = char_of (48 + d)"

fun showNat :: "nat \<Rightarrow> string" where
  "showNat n = (if n < 10 then [digitChar n] else showNat (n div 10) @ [digitChar (n mod 10)])"

declare showNat.simps [simp del]

definition showInt :: "int \<Rightarrow> string" where
  "showInt i = (if i < 0 then CHR ''-'' # showNat (nat (- i)) else showNat (nat i))"

text \<open>
  \<^verbatim>\<open>Math.random()\<close> lies in the interval from 0 to 1, 1 excluded, so in base 36 it
  prints as \<^verbatim>\<open>0\<close> or as \<^verbatim>\<open>0.\<close> followed by its fractional digits, written
  \<^verbatim>\<open>0\<close> to \<^verbatim>\<open>9\<close> and \<^verbatim>\<open>a\<close> to \<^verbatim>\<open>z\<close>. The draw is given by the list of
  these digits; a value in the list is read modulo 36.
\<close>

definition digit36 :: "nat \<Rightarrow> char" where
  "digit36 d = (if d < 10 then char_of (48 + d) else char_of (87 + d))"

definition toString36 :: "nat list \<Rightarrow> string" where
  "toString36 ds = (if ds = [] then ''0'' else ''0.'' @ map (\<lambda>d. digit36 (d mod 36)) ds)"

text \<open>
  Line 114. The two readings of the environment are arguments: \<open>now\<close> is the value of
  \<^verbatim>\<open>Date.now()\<close>, an integer number of milliseconds, and \<open>rnd\<close> the digits of
  \<^verbatim>\<open>Math.random()\<close>.
\<close>

definition mkOrderId :: "int \<Rightarrow> nat list \<Rightarrow> string" where
  "mkOrderId now rnd =
     ''ORD-'' @ showInt now @ ''-'' @ toUpperCase (substr (toString36 rnd) 2 5)"

subsection \<open>Event handlers\<close>

definition setView :: "View \<Rightarrow> App \<Rightarrow> App" where
  "setView v s = s\<lparr>view := v\<rparr>"

definition handleCheckout :: "App \<Rightarrow> App" where
  "handleCheckout s = setView Checkout s"

definition handlePlaceOrder :: "int \<Rightarrow> nat list \<Rightarrow> App \<Rightarrow> App" where
  "handlePlaceOrder now rnd s =
     (let orderId = mkOrderId now rnd;
          s1 = s\<lparr>lastOrderId := Some orderId\<rparr>;
          s2 = clearCart s1
      in setView Confirmation s2)"

definition handleLoginSuccess :: "App \<Rightarrow> App" where
  "handleLoginSuccess s = setView Admin (s\<lparr>isLoginModalOpen := False\<rparr>)"

text \<open>The logout buttons, lines 296, 343 and 385.\<close>

definition handleLogout :: "App \<Rightarrow> App" where
  "handleLogout s = setView Store (logout s)"

text \<open>The wishlist button, line 350.\<close>

definition handleWishlistClick :: "App \<Rightarrow> App" where
  "handleWishlistClick s =
     (if isLoggedIn (auth s) then setView Dashboard s else s\<lparr>isLoginModalOpen := True\<rparr>)"

subsection \<open>Effects\<close>

text \<open>
  The notification effect, lines 51 to 65. Its asynchronous part is the pair of
  completions \<open>notifsResolved\<close> and \<open>notifsRejected\<close>.
\<close>

definition notifEffect :: "App \<Rightarrow> App" where
  "notifEffect s =
     (if isLoggedIn (auth s) \<and> role (auth s) \<noteq> None
      then s\<lparr>notifCalls := notifCalls s + 1, notifPending := notifPending s + 1\<rparr>
      else s\<lparr>adminNotifications := []\<rparr>)"

definition notifsResolved :: "AdminNotification list \<Rightarrow> App \<Rightarrow> App" where
  "notifsResolved notifs s =
     s\<lparr>adminNotifications := notifs, notifPending := notifPending s - 1\<rparr>"

definition notifsRejected :: "App \<Rightarrow> App" where
  "notifsRejected s =
     s\<lparr>console := console s @ [''Failed to fetch admin notifications for header''],
       notifPending := notifPending s - 1\<rparr>"

text \<open>
  The product effect, lines 70 to 87: the part before \<^verbatim>\<open>await\<close>, then one of the two
  completions, each followed by the \<^verbatim>\<open>finally\<close> block.
\<close>

definition productsEffect :: "App \<Rightarrow> App" where
  "productsEffect s =
     (if length (products s) = 0
      then s\<lparr>isLoading := True, error := None,
             productCalls := productCalls s + 1, productPending := productPending s + 1\<rparr>
      else s)"

definition productsResolved :: "Product list \<Rightarrow> App \<Rightarrow> App" where
  "productsResolved generatedProducts s =
     s\<lparr>products := generatedProducts, isLoading := False,
       productPending := productPending s - 1\<rparr>"

definition productsRejected :: "App \<Rightarrow> App" where
  "productsRejected s =
     s\<lparr>error := Some ''Failed to load products. Please check your API key and network connection.'',
       console := console s @ [''Error''],
       isLoading := False,
       productPending := productPending s - 1\<rparr>"

text \<open>The view effect, lines 90 to 93.\<close>

definition viewEffect :: "App \<Rightarrow> App" where
  "viewEffect s = s\<lparr>isCartOpen := False, isMobileMenuOpen := False\<rparr>"

text \<open>
  After a render, an effect runs when one of its dependencies differs from the previous
  render; \<open>prev\<close> is the state of that previous render. On mount every effect runs.
\<close>

definition commit :: "App \<Rightarrow> App \<Rightarrow> App" where
  "commit prev s =
     (let s1 = (if isLoggedIn (auth prev) = isLoggedIn (auth s) \<and> role (auth prev) = role (auth s)
                then s else notifEffect s);
          s2 = (if length (products prev) = length (products s) then s1 else productsEffect s1);
          s3 = (if view prev = view s then s2 else viewEffect s2)
      in s3)"

definition mount :: "App \<Rightarrow> App" where
  "mount s = viewEffect (productsEffect (notifEffect s))"

subsection \<open>Rendering\<close>

text \<open>A string or null used as a condition: null and the empty string are falsy.\<close>

fun truthy :: "string option \<Rightarrow> bool" where
  "truthy None = False"
| "truthy (Some m) = (m \<noteq> [])"

text \<open>The four conditional regions of the product grid, lines 212 to 236.\<close>

record Grid =
  showSkeleton :: bool
  showError :: bool
  showProducts :: bool
  showNoResults :: bool

definition renderGrid :: "App \<Rightarrow> Grid" where
  "renderGrid s =
     \<lparr>showSkeleton = isLoading s,
      showError = truthy (error s),
      showProducts = (\<not> isLoading s \<and> \<not> truthy (error s)),
      showNoResults = (\<not> isLoading s \<and> \<not> truthy (error s)
        \<and> length (filteredAndSortedProducts (products s) (criteria s) (sortBy s)) = 0)\<rparr>"

datatype Content =
  UserDashboardView | CheckoutView | OrderConfirmationView | ContactView | StoreView

text \<open>\<open>renderCurrentView\<close>, lines 270 to 284: \<open>admin\<close> has no case of its own.\<close>

fun renderCurrentView :: "View \<Rightarrow> Content" where
  "renderCurrentView Dashboard = UserDashboardView"
| "renderCurrentView Checkout = CheckoutView"
| "renderCurrentView Confirmation = OrderConfirmationView"
| "renderCurrentView Contact = ContactView"
| "renderCurrentView Store = StoreView"
| "renderCurrentView _ = StoreView"

text \<open>The header's admin button, lines 332 and 383.\<close>

definition adminButtonShown :: "Auth \<Rightarrow> bool" where
  "adminButtonShown a =
     (isLoggedIn a \<and>
      (case role a of None \<Rightarrow> False
       | Some r \<Rightarrow> arr_includes [''admin'', ''manager'', ''editor''] (roleName r)))"

text \<open>
  What \<open>App\<close> returns, lines 286 to 402: the admin page alone, or the standard shell
  with its content, the controls of the header, the footer and the overlays.
\<close>

record Shell =
  content :: Content
  adminButton :: bool
  accountButton :: bool
  logoutButton :: bool
  adminLoginButton :: bool
  mobileMenu :: bool
  footer :: bool
  miniCartOpen :: bool
  loginModal :: bool

datatype Page = AdminViewPage | ShellPage Shell

definition renderApp :: "App \<Rightarrow> Page" where
  "renderApp s =
     (if view s = Admin \<and> isLoggedIn (auth s) \<and> role (auth s) \<noteq> None
      then AdminViewPage
      else ShellPage
        \<lparr>content = renderCurrentView (view s),
         adminButton = adminButtonShown (auth s),
         accountButton = isLoggedIn (auth s),
         logoutButton = isLoggedIn (auth s),
         adminLoginButton = (\<not> isLoggedIn (auth s)),
         mobileMenu = isMobileMenuOpen s,
         footer = (\<not> startsWith (viewName (view s)) ''admin''),
         miniCartOpen = isCartOpen s,
         loginModal = isLoginModalOpen s\<rparr>)"

subsection \<open>Events\<close>

text \<open>
  The events \<open>App\<close> reacts to: the controls it renders or hands to its children as
  callbacks, the completions of its two loaders, and the login of the auth hook, issued
  by the login modal. \<open>PlaceOrder\<close> carries the two readings of the environment.
\<close>

datatype Event =
    NavStore | NavContact | ClickAdmin | ClickAccount | ClickLogout | ClickAdminLogin
  | ClickWishlist | OpenCart | CloseCart | ToggleMobileMenu | CheckoutClick
  | PlaceOrder int "nat list" | CloseLoginModal | Login string UserRole | LoginSuccess
  | ProductsResolved "Product list" | ProductsRejected
  | NotifsResolved "AdminNotification list" | NotifsRejected
  | AdminSetProducts "Product list"
  | SetSearchTerm string | CategoryChange string | BrandChange string
  | SetPriceRange "jsnum \<times> jsnum" | RatingClick jsnum | SetSortBy string

definition inShell :: "App \<Rightarrow> bool" where
  "inShell s = (case renderApp s of AdminViewPage \<Rightarrow> False | ShellPage _ \<Rightarrow> True)"

definition onPage :: "(Shell \<Rightarrow> bool) \<Rightarrow> App \<Rightarrow> bool" where
  "onPage control s = (case renderApp s of AdminViewPage \<Rightarrow> False | ShellPage sh \<Rightarrow> control sh)"

definition inStoreView :: "App \<Rightarrow> bool" where
  "inStoreView s = onPage (\<lambda>sh. content sh = StoreView) s"

text \<open>An event can occur when the control that raises it is on the page.\<close>

fun enabled :: "Event \<Rightarrow> App \<Rightarrow> bool" where
  "enabled NavStore s = True"
| "enabled NavContact s = inShell s"
| "enabled ClickAdmin s = onPage adminButton s"
| "enabled ClickAccount s = onPage accountButton s"
| "enabled ClickLogout s = (onPage logoutButton s \<or> renderApp s = AdminViewPage)"
| "enabled ClickAdminLogin s = onPage adminLoginButton s"
| "enabled ClickWishlist s = inShell s"
| "enabled OpenCart s = inShell s"
| "enabled CloseCart s = inShell s"
| "enabled ToggleMobileMenu s = inShell s"
| "enabled CheckoutClick s = inShell s"
| "enabled (PlaceOrder now rnd) s = onPage (\<lambda>sh. content sh = CheckoutView) s"
| "enabled CloseLoginModal s = onPage loginModal s"
| "enabled (Login u r) s = onPage loginModal s"
| "enabled LoginSuccess s = onPage loginModal s"
| "enabled (ProductsResolved generated) s = (0 < productPending s)"
| "enabled ProductsRejected s = (0 < productPending s)"
| "enabled (NotifsResolved notifs) s = (0 < notifPending s)"
| "enabled NotifsRejected s = (0 < notifPending s)"
| "enabled (AdminSetProducts ps) s = (renderApp s = AdminViewPage)"
| "enabled (SetSearchTerm t) s = inStoreView s"
| "enabled (CategoryChange c) s = (inStoreView s \<and> c \<in> set (categories (products s)))"
| "enabled (BrandChange b) s = (inStoreView s \<and> b \<in> set (brands (products s)))"
| "enabled (SetPriceRange r) s =
     (inStoreView s \<and> r \<in> set [(Fin 0, Fin 50), (Fin 50, Fin 200), (Fin 200, Fin 1000),
                                 (Fin 1000, PosInf), (Fin 0, PosInf)])"
| "enabled (RatingClick r) s = (inStoreView s \<and> r \<in> set [Fin 4, Fin 3, Fin 2, Fin 1])"
| "enabled (SetSortBy k) s = inStoreView s"

text \<open>\<open>handleCategoryChange\<close> and \<open>handleBrandChange\<close>, lines 104 to 109.\<close>

definition toggleMember :: "string \<Rightarrow> string list \<Rightarrow> string list" where
  "toggleMember x prev =
     (if arr_includes prev x then filter (\<lambda>c. c \<noteq> x) prev else prev @ [x])"

fun handler :: "Event \<Rightarrow> App \<Rightarrow> App" where
  "handler NavStore s = setView Store s"
| "handler NavContact s = setView Contact s"
| "handler ClickAdmin s = setView Admin s"
| "handler ClickAccount s = setView Dashboard s"
| "handler ClickLogout s = handleLogout s"
| "handler ClickAdminLogin s = s\<lparr>isLoginModalOpen := True\<rparr>"
| "handler ClickWishlist s = handleWishlistClick s"
| "handler OpenCart s = s\<lparr>isCartOpen := True\<rparr>"
| "handler CloseCart s = s\<lparr>isCartOpen := False\<rparr>"
| "handler ToggleMobileMenu s = s\<lparr>isMobileMenuOpen := (\<not> isMobileMenuOpen s)\<rparr>"
| "handler CheckoutClick s = handleCheckout s"
| "handler (PlaceOrder now rnd) s = handlePlaceOrder now rnd s"
| "handler CloseLoginModal s = s\<lparr>isLoginModalOpen := False\<rparr>"
| "handler (Login u r) s = login u r s"
| "handler LoginSuccess s = handleLoginSuccess s"
| "handler (ProductsResolved generated) s = productsResolved generated s"
| "handler ProductsRejected s = productsRejected s"
| "handler (NotifsResolved notifs) s = notifsResolved notifs s"
| "handler NotifsRejected s = notifsRejected s"
| "handler (AdminSetProducts ps) s = s\<lparr>products := ps\<rparr>"
| "handler (SetSearchTerm t) s = s\<lparr>criteria := (criteria s)\<lparr>searchTerm := t\<rparr>\<rparr>"
| "handler (CategoryChange c) s =
     s\<lparr>criteria := (criteria s)\<lparr>selectedCategories := toggleMember c (selectedCategories (criteria s))\<rparr>\<rparr>"
| "handler (BrandChange b) s =
     s\<lparr>criteria := (criteria s)\<lparr>selectedBrands := toggleMember b (selectedBrands (criteria s))\<rparr>\<rparr>"
| "handler (SetPriceRange r) s = s\<lparr>criteria := (criteria s)\<lparr>priceRange := r\<rparr>\<rparr>"
| "handler (RatingClick r) s =
     s\<lparr>criteria := (criteria s)\<lparr>minRating := (if minRating (criteria s) = r then Fin 0 else r)\<rparr>\<rparr>"
| "handler (SetSortBy k) s = s\<lparr>sortBy := k\<rparr>"

text \<open>One event: the handler's state updates, then the effects of the next render.\<close>

definition step :: "Event \<Rightarrow> App \<Rightarrow> App" where
  "step e s = (if enabled e s then commit s (handler e s) else s)"

fun run :: "Event list \<Rightarrow> App \<Rightarrow> App" where
  "run [] s = s"
| "run (e # es) s = run es (step e s)"

text \<open>A session: the mounted initial state, then any sequence of events.\<close>

definition session :: "Auth \<Rightarrow> nat \<Rightarrow> Event list \<Rightarrow> App" where
  "session a n es = run es (mount (initialApp a n))"

text \<open>How many of the three grid states are on the page.\<close>

definition gridStates :: "Grid \<Rightarrow> nat" where
  "gridStates g = length (filter (\<lambda>b. b) [showSkeleton g, showError g, showProducts g])"

text \<open>The loading skeleton and the error panel are not both due.\<close>

definition loadInv :: "App \<Rightarrow> bool" where
  "loadInv s = (\<not> (isLoading s \<and> truthy (error s)))"

section \<open>Scenario data\<close>

text \<open>
  The three products of the specification's scenarios (prices 10, 50, 5 and ratings
  3, 5, 4), the criteria that constrain nothing, and a signed-in administrator.
\<close>

definition scenarioProduct :: "string \<Rightarrow> rat \<Rightarrow> rat \<Rightarrow> Product" where
  "scenarioProduct i pr ra =
     \<lparr>pid = i, name = ''Flour'', description = [], price = Fin pr, rating = Fin ra,
      imageUrls = [], category = ''Grains'', brand = ''Amrah'', stock = Fin 1\<rparr>"

definition scenarioProducts :: "Product list" where
  "scenarioProducts =
     [scenarioProduct ''a'' 10 3, scenarioProduct ''b'' 50 5, scenarioProduct ''c'' 5 4]"

definition noCriteria :: Criteria where
  "noCriteria = \<lparr>searchTerm = [], selectedCategories = [], selectedBrands = [],
                  priceRange = (Fin 0, PosInf), minRating = Fin 0\<rparr>"

definition adminAuth :: Auth where
  "adminAuth = \<lparr>isLoggedIn = True, role = Some RoleAdmin, user = Some ''amrah''\<rparr>"

section \<open>Properties of the filter and sort engine\<close>

subsection \<open>Numbers and the sort\<close>

lemma num_le_NaN [simp]: "\<not> num_le a NaN"
  by (cases a) auto

lemma str_includes_iff: "str_includes s t \<longleftrightarrow> (\<exists>pre suf. s = pre @ t @ suf)"
proof (induction s)
  case Nil
  then show ?case by auto
next
  case (Cons c s)
  show ?case
  proof
    assume "str_includes (c # s) t"
    then consider "prefix t (c # s)" | "str_includes s t" by auto
    then show "\<exists>pre suf. c # s = pre @ t @ suf"
    proof cases
      case 1
      then obtain suf where "c # s = t @ suf" by (auto simp: prefix_def)
      then have "c # s = [] @ t @ suf" by simp
      then show ?thesis by blast
    next
      case 2
      with Cons.IH obtain pre suf where "s = pre @ t @ suf" by auto
      then have "c # s = (c # pre) @ t @ suf" by simp
      then show ?thesis by blast
    qed
  next
    assume "\<exists>pre suf. c # s = pre @ t @ suf"
    then obtain pre suf where e: "c # s = pre @ t @ suf" by auto
    show "str_includes (c # s) t"
    proof (cases pre)
      case Nil
      with e have "prefix t (c # s)" by (simp add: prefix_def)
      then show ?thesis by simp
    next
      case (Cons d pre')
      with e have "s = pre' @ t @ suf" by simp
      with Cons.IH have "str_includes s t" by blast
      then show ?thesis by simp
    qed
  qed
qed

lemma num_gt_sub: "num_gt (if num_sub a b = NaN then Fin 0 else num_sub a b) (Fin 0) = num_lt b a"
  by (cases a; cases b) (auto simp: num_gt_def)

lemma num_le_total: "a \<noteq> NaN \<Longrightarrow> b \<noteq> NaN \<Longrightarrow> \<not> num_lt b a \<Longrightarrow> num_le a b"
  by (cases a; cases b) auto

lemma num_lt_le: "num_lt a b \<Longrightarrow> num_le a b"
  by (cases a; cases b) auto

lemma num_le_trans: "num_le a b \<Longrightarrow> num_le b c \<Longrightarrow> num_le a c"
  by (cases a; cases b; cases c) auto

lemma num_lt_irrefl: "\<not> num_lt a a"
  by (cases a) auto

lemma mset_sort_insert: "mset (sort_insert f x ys) = add_mset x (mset ys)"
  by (induction ys) auto

lemma mset_array_sort: "mset (array_sort f xs) = mset xs"
  by (induction xs) (auto simp: mset_sort_insert)

lemma set_sort_insert: "set (sort_insert f x ys) = insert x (set ys)"
  by (induction ys) auto

lemma set_array_sort: "set (array_sort f xs) = set xs"
  by (induction xs) (auto simp: set_sort_insert)

lemma sorted_sort_insert:
  assumes gt: "\<And>a b. a \<in> A \<Longrightarrow> b \<in> A \<Longrightarrow> num_gt (SortCompare f a b) (Fin 0) \<Longrightarrow> R b a"
      and ngt: "\<And>a b. a \<in> A \<Longrightarrow> b \<in> A \<Longrightarrow> \<not> num_gt (SortCompare f a b) (Fin 0) \<Longrightarrow> R a b"
      and tr: "\<And>a b c. R a b \<Longrightarrow> R b c \<Longrightarrow> R a c"
      and x: "x \<in> A" and ys: "set ys \<subseteq> A" and s: "sorted_wrt R ys"
  shows "sorted_wrt R (sort_insert f x ys)"
  using ys s
proof (induction ys)
  case Nil
  then show ?case by simp
next
  case (Cons y ys)
  show ?case
  proof (cases "num_gt (SortCompare f x y) (Fin 0)")
    case True
    with x Cons.prems have "R y x" by (auto intro: gt)
    with True Cons show ?thesis by (auto simp: set_sort_insert)
  next
    case False
    with x Cons.prems have xy: "R x y" by (auto intro: ngt)
    with Cons.prems have "\<forall>z\<in>set ys. R x z" by (auto intro: tr)
    with False xy Cons.prems show ?thesis by auto
  qed
qed

lemma sorted_array_sort:
  assumes gt: "\<And>a b. a \<in> A \<Longrightarrow> b \<in> A \<Longrightarrow> num_gt (SortCompare f a b) (Fin 0) \<Longrightarrow> R b a"
      and ngt: "\<And>a b. a \<in> A \<Longrightarrow> b \<in> A \<Longrightarrow> \<not> num_gt (SortCompare f a b) (Fin 0) \<Longrightarrow> R a b"
      and tr: "\<And>a b c. R a b \<Longrightarrow> R b c \<Longrightarrow> R a c"
      and xs: "set xs \<subseteq> A"
  shows "sorted_wrt R (array_sort f xs)"
  using xs
proof (induction xs)
  case Nil
  then show ?case by simp
next
  case (Cons x xs)
  then have "sorted_wrt R (array_sort f xs)" by simp
  moreover have "x \<in> A" "set (array_sort f xs) \<subseteq> A" using Cons.prems by (auto simp: set_array_sort)
  ultimately show ?case using sorted_sort_insert[of A f R x "array_sort f xs"] gt ngt tr by simp
qed

lemma filter_sort_insert:
  assumes "\<And>y. P x \<Longrightarrow> P y \<Longrightarrow> \<not> num_gt (SortCompare f x y) (Fin 0)"
  shows "filter P (sort_insert f x ys) = filter P (x # ys)"
  using assms by (induction ys) auto

lemma filter_array_sort:
  assumes "\<And>x y. P x \<Longrightarrow> P y \<Longrightarrow> \<not> num_gt (SortCompare f x y) (Fin 0)"
  shows "filter P (array_sort f xs) = filter P xs"
proof (induction xs)
  case Nil
  then show ?case by simp
next
  case (Cons x xs)
  have "filter P (sort_insert f x (array_sort f xs)) = filter P (x # array_sort f xs)"
    by (rule filter_sort_insert) (rule assms)
  with Cons show ?case by simp
qed

lemma array_sort_no_gt:
  assumes "\<And>x y. \<not> num_gt (SortCompare f x y) (Fin 0)"
  shows "array_sort f xs = xs"
proof (induction xs)
  case Nil
  then show ?case by simp
next
  case (Cons x xs)
  have "sort_insert f x xs = x # xs" using assms by (cases xs) auto
  with Cons show ?case by simp
qed

subsection \<open>The filter callback computes the five criteria\<close>

lemma char_of_eq_nat: "m < 256 \<Longrightarrow> (c = char_of m) = ((of_char c :: nat) = m)"
  by (metis char_of_char mod_less nat_of_char_less_256 of_char_of)

lemma char_of_eq_nat2: "m < 256 \<Longrightarrow> (char_of m = c) = ((of_char c :: nat) = m)"
  by (metis char_of_char mod_less nat_of_char_less_256 of_char_of)

lemma ascii_pairs:
  "zip ''ABCDEFGHIJKLMNOPQRSTUVWXYZ'' ''abcdefghijklmnopqrstuvwxyz''
     = map (\<lambda>i. (char_of (65 + i), char_of (97 + i))) [0..<26]"
  by (simp add: upt_rec char_of_eq_nat)

lemma range_pairs:
  assumes "a + k \<le> 256" and "b + k \<le> 256"
  shows "((c, d) \<in> set (map (\<lambda>i. (char_of (a + i), char_of (b + i))) [0..<k]))
         = (a \<le> (of_char c :: nat) \<and> of_char c < a + k \<and> (of_char d :: nat) + a = of_char c + b)"
proof
  assume "(c, d) \<in> set (map (\<lambda>i. (char_of (a + i), char_of (b + i))) [0..<k])"
  then obtain i where i: "i < k" "c = char_of (a + i)" "d = char_of (b + i)" by auto
  with assms have "(of_char c :: nat) = a + i" "(of_char d :: nat) = b + i"
    by (simp_all add: char_of_eq_nat[symmetric])
  with i show "a \<le> (of_char c :: nat) \<and> of_char c < a + k \<and> (of_char d :: nat) + a = of_char c + b"
    by simp
next
  assume h: "a \<le> (of_char c :: nat) \<and> of_char c < a + k \<and> (of_char d :: nat) + a = of_char c + b"
  define i where "i = (of_char c :: nat) - a"
  from h have i: "i < k" "(of_char c :: nat) = a + i" "(of_char d :: nat) = b + i"
    unfolding i_def by linarith+
  with assms have "c = char_of (a + i)" "d = char_of (b + i)"
    by (simp_all add: char_of_eq_nat)
  with i(1) show "(c, d) \<in> set (map (\<lambda>i. (char_of (a + i), char_of (b + i))) [0..<k])"
    by auto
qed

text \<open>The table pairs a character with the character 32 above it, for the capitals only.\<close>

lemma casePairs_iff:
  "((c, d) \<in> set casePairs)
     = (((65 \<le> (of_char c :: nat) \<and> (of_char c :: nat) \<le> 90)
         \<or> (192 \<le> (of_char c :: nat) \<and> (of_char c :: nat) \<le> 214)
         \<or> (216 \<le> (of_char c :: nat) \<and> (of_char c :: nat) \<le> 222))
        \<and> (of_char d :: nat) = of_char c + 32)"
  unfolding casePairs_def ascii_pairs set_append Un_iff
  by (simp only: range_pairs[of 65 26 97] range_pairs[of 192 23 224] range_pairs[of 216 7 248])
     auto

lemma of_char_lowerChar:
  "(of_char (lowerChar c) :: nat)
     = (if (65 \<le> (of_char c :: nat) \<and> (of_char c :: nat) \<le> 90)
           \<or> (192 \<le> (of_char c :: nat) \<and> (of_char c :: nat) \<le> 214)
           \<or> (216 \<le> (of_char c :: nat) \<and> (of_char c :: nat) \<le> 222)
        then of_char c + 32 else of_char c)"
  by (auto simp: lowerChar_def Let_def)

text \<open>
  \<open>toLowerCase\<close> sends two characters to the same character exactly when the table makes
  them the same letter, and two strings to the same string exactly when they are equal
  with case ignored.
\<close>

lemma lowerChar_eq_iff: "(lowerChar c = lowerChar d) = sameLetter c d"
proof -
  have "(lowerChar c = lowerChar d) = ((of_char (lowerChar c) :: nat) = of_char (lowerChar d))"
    by simp
  also have "\<dots> = sameLetter c d"
    unfolding sameLetter_def casePairs_iff of_char_lowerChar
    using of_char_eq_iff[of c d, where ?'a = nat]
    by (auto simp del: of_char_eq_iff)
  finally show ?thesis .
qed

lemma toLowerCase_eq_iff: "(toLowerCase s = toLowerCase t) = equalIgnoringCase s t"
proof -
  have "(map lowerChar s = map lowerChar t) = list_all2 (=) (map lowerChar s) (map lowerChar t)"
    by (simp add: list.rel_eq)
  also have "\<dots> = list_all2 (\<lambda>x y. lowerChar x = lowerChar y) s t"
    by (simp add: list_all2_map1 list_all2_map2)
  finally show ?thesis
    by (simp add: toLowerCase_def equalIgnoringCase_def lowerChar_eq_iff)
qed

lemma search_matches_code:
  "str_includes (toLowerCase nm) (toLowerCase term) = search_matches term nm"
proof
  assume "str_includes (toLowerCase nm) (toLowerCase term)"
  then obtain pre suf where "map lowerChar nm = pre @ map lowerChar term @ suf"
    by (auto simp: str_includes_iff toLowerCase_def)
  then obtain a b c where "nm = a @ b @ c" "map lowerChar b = map lowerChar term"
    by (auto simp: map_eq_append_conv append_eq_map_conv)
  then have "nm = a @ b @ c" "equalIgnoringCase b term"
    by (simp_all add: toLowerCase_eq_iff[symmetric] toLowerCase_def)
  then show "search_matches term nm"
    unfolding search_matches_def by blast
next
  assume "search_matches term nm"
  then obtain pre mid suf where "nm = pre @ mid @ suf" "equalIgnoringCase mid term"
    by (auto simp: search_matches_def)
  then have "toLowerCase nm = toLowerCase pre @ toLowerCase term @ toLowerCase suf"
    by (simp add: toLowerCase_eq_iff[symmetric]) (simp add: toLowerCase_def)
  then show "str_includes (toLowerCase nm) (toLowerCase term)"
    unfolding str_includes_iff by blast
qed

text \<open>The search on examples: letter case is ignored, for accented letters too.\<close>

lemma search_flour:
  "search_matches ''flour'' ''Wheat FLOUR'' \<and> \<not> search_matches ''flower'' ''Wheat FLOUR''"
  unfolding search_matches_code[symmetric]
  by (simp add: toLowerCase_def lowerChar_def char_of_eq_nat char_of_eq_nat2)

lemma search_accented:
  "search_matches [CHR ''c'', CHR ''a'', CHR ''f'', char_of (233::nat)]
     [CHR ''C'', CHR ''A'', CHR ''F'', char_of (201::nat), CHR '' '', CHR ''B'']"
  unfolding search_matches_code[symmetric]
  by (simp add: toLowerCase_def lowerChar_def char_of_eq_nat char_of_eq_nat2)


lemma matchesFilter_not_NaN:
  assumes "matchesFilter c p"
  shows "price p \<noteq> NaN" and "rating p \<noteq> NaN"
proof -
  from assms have pr: "num_le (price p) (snd (priceRange c))"
    and ra: "num_le (minRating c) (rating p)"
    by (simp_all add: matchesFilter_def num_ge_def)
  from pr show "price p \<noteq> NaN" by auto
  from ra show "rating p \<noteq> NaN" by auto
qed



subsection \<open>Order of the derived list\<close>

lemma gt_price_asc:
  "num_gt (SortCompare (compareFn ''price_asc'') a b) (Fin 0) = num_lt (price b) (price a)"
  by (simp add: SortCompare_def compareFn_def num_gt_sub Let_def)

lemma gt_price_desc:
  "num_gt (SortCompare (compareFn ''price_desc'') a b) (Fin 0) = num_lt (price a) (price b)"
  by (simp add: SortCompare_def compareFn_def num_gt_sub Let_def)

lemma gt_rating_desc:
  "num_gt (SortCompare (compareFn ''rating_desc'') a b) (Fin 0) = num_lt (rating a) (rating b)"
  by (simp add: SortCompare_def compareFn_def num_gt_sub Let_def)

lemma gt_relevance:
  "\<not> num_gt (SortCompare (compareFn ''relevance'') a b) (Fin 0)"
  by (simp add: SortCompare_def compareFn_def num_gt_def)

lemma sorted_price_asc:
  "sorted_wrt (\<lambda>a b. num_le (price a) (price b)) (filteredAndSortedProducts ps c ''price_asc'')"
  unfolding filteredAndSortedProducts_def
proof (rule sorted_array_sort[where A = "{p. price p \<noteq> NaN}"])
  show "set (filterProducts ps c) \<subseteq> {p. price p \<noteq> NaN}"
    by (auto simp: filterProducts_def dest: matchesFilter_not_NaN)
qed (auto simp: gt_price_asc intro: num_lt_le num_le_total num_le_trans)

lemma sorted_price_desc:
  "sorted_wrt (\<lambda>a b. num_le (price b) (price a)) (filteredAndSortedProducts ps c ''price_desc'')"
  unfolding filteredAndSortedProducts_def
proof (rule sorted_array_sort[where A = "{p. price p \<noteq> NaN}"])
  show "set (filterProducts ps c) \<subseteq> {p. price p \<noteq> NaN}"
    by (auto simp: filterProducts_def dest: matchesFilter_not_NaN)
qed (auto simp: gt_price_desc intro: num_lt_le num_le_total num_le_trans)

lemma sorted_rating_desc:
  "sorted_wrt (\<lambda>a b. num_le (rating b) (rating a)) (filteredAndSortedProducts ps c ''rating_desc'')"
  unfolding filteredAndSortedProducts_def
proof (rule sorted_array_sort[where A = "{p. rating p \<noteq> NaN}"])
  show "set (filterProducts ps c) \<subseteq> {p. rating p \<noteq> NaN}"
    by (auto simp: filterProducts_def dest: matchesFilter_not_NaN)
qed (auto simp: gt_rating_desc intro: num_lt_le num_le_total num_le_trans)

lemma stable_price_asc:
  "filter (\<lambda>p. price p = k) (filteredAndSortedProducts ps c ''price_asc'')
     = filter (\<lambda>p. price p = k) (filterProducts ps c)"
  unfolding filteredAndSortedProducts_def
  by (rule filter_array_sort) (simp add: gt_price_asc num_lt_irrefl)

lemma stable_price_desc:
  "filter (\<lambda>p. price p = k) (filteredAndSortedProducts ps c ''price_desc'')
     = filter (\<lambda>p. price p = k) (filterProducts ps c)"
  unfolding filteredAndSortedProducts_def
  by (rule filter_array_sort) (simp add: gt_price_desc num_lt_irrefl)

lemma stable_rating_desc:
  "filter (\<lambda>p. rating p = k) (filteredAndSortedProducts ps c ''rating_desc'')
     = filter (\<lambda>p. rating p = k) (filterProducts ps c)"
  unfolding filteredAndSortedProducts_def
  by (rule filter_array_sort) (simp add: gt_rating_desc num_lt_irrefl)

lemma relevance_keeps_order:
  "filteredAndSortedProducts ps c ''relevance'' = filterProducts ps c"
  unfolding filteredAndSortedProducts_def by (rule array_sort_no_gt) (rule gt_relevance)

subsection \<open>The sort is the stable sort\<close>

text \<open>
  A list has one stable sorted arrangement. On the filter's output the model of the sort
  returns it, so the derived list does not depend on the algorithm chosen for the model.
\<close>

lemma rank_le: "a \<noteq> NaN \<Longrightarrow> b \<noteq> NaN \<Longrightarrow> (rank a \<le> rank b) = num_le a b"
  by (cases a; cases b) simp_all

lemma rankDesc_le: "a \<noteq> NaN \<Longrightarrow> b \<noteq> NaN \<Longrightarrow> (rankDesc a \<le> rankDesc b) = num_le b a"
  by (cases a; cases b) simp_all

lemma rank_inj: "rank a = rank b \<Longrightarrow> a = b"
  by (cases a; cases b) simp_all

lemma rankDesc_inj: "rankDesc a = rankDesc b \<Longrightarrow> a = b"
  by (cases a; cases b) simp_all

lemma canonical_sort:
  assumes sorted: "sorted_wrt (\<lambda>a b. key a \<le> key b) (array_sort f xs)"
      and stable: "\<And>k. filter (\<lambda>p. key p = k) (array_sort f xs) = filter (\<lambda>p. key p = k) xs"
  shows "array_sort f xs = sort_key key xs"
proof (rule properties_for_sort_key[symmetric])
  show "mset (array_sort f xs) = mset xs" by (rule mset_array_sort)
  show "sorted (map key (array_sort f xs))" using sorted by (simp add: sorted_map)
  fix k assume "k \<in> set (array_sort f xs)"
  have "(\<lambda>x. key k = key x) = (\<lambda>p. key p = key k)" by auto
  then show "filter (\<lambda>x. key k = key x) (array_sort f xs) = filter (\<lambda>x. key k = key x) xs"
    using stable[of "key k"] by simp
qed

lemma derived_price_asc_canonical:
  "filteredAndSortedProducts ps c ''price_asc'' = sort_key (\<lambda>p. rank (price p)) (filterProducts ps c)"
  unfolding filteredAndSortedProducts_def
proof (rule canonical_sort)
  have n: "set (filterProducts ps c) \<subseteq> {p. price p \<noteq> NaN}"
    by (auto simp: filterProducts_def dest: matchesFilter_not_NaN)
  show "sorted_wrt (\<lambda>a b. rank (price a) \<le> rank (price b))
          (array_sort (compareFn ''price_asc'') (filterProducts ps c))"
    by (rule sorted_array_sort[where A = "{p. price p \<noteq> NaN}", OF _ _ _ n])
       (auto simp: gt_price_asc rank_le intro: num_lt_le num_le_total)
  fix k
  show "filter (\<lambda>p. rank (price p) = k) (array_sort (compareFn ''price_asc'') (filterProducts ps c))
        = filter (\<lambda>p. rank (price p) = k) (filterProducts ps c)"
  proof (rule filter_array_sort)
    fix x y :: Product assume "rank (price x) = k" "rank (price y) = k"
    then have "price x = price y" by (auto intro: rank_inj)
    then show "\<not> num_gt (SortCompare (compareFn ''price_asc'') x y) (Fin 0)"
      by (simp add: gt_price_asc num_lt_irrefl)
  qed
qed

lemma derived_price_desc_canonical:
  "filteredAndSortedProducts ps c ''price_desc''
     = sort_key (\<lambda>p. rankDesc (price p)) (filterProducts ps c)"
  unfolding filteredAndSortedProducts_def
proof (rule canonical_sort)
  have n: "set (filterProducts ps c) \<subseteq> {p. price p \<noteq> NaN}"
    by (auto simp: filterProducts_def dest: matchesFilter_not_NaN)
  show "sorted_wrt (\<lambda>a b. rankDesc (price a) \<le> rankDesc (price b))
          (array_sort (compareFn ''price_desc'') (filterProducts ps c))"
    by (rule sorted_array_sort[where A = "{p. price p \<noteq> NaN}", OF _ _ _ n])
       (auto simp: gt_price_desc rankDesc_le intro: num_lt_le num_le_total)
  fix k
  show "filter (\<lambda>p. rankDesc (price p) = k) (array_sort (compareFn ''price_desc'') (filterProducts ps c))
        = filter (\<lambda>p. rankDesc (price p) = k) (filterProducts ps c)"
  proof (rule filter_array_sort)
    fix x y :: Product assume "rankDesc (price x) = k" "rankDesc (price y) = k"
    then have "price x = price y" by (auto intro: rankDesc_inj)
    then show "\<not> num_gt (SortCompare (compareFn ''price_desc'') x y) (Fin 0)"
      by (simp add: gt_price_desc num_lt_irrefl)
  qed
qed

lemma derived_rating_desc_canonical:
  "filteredAndSortedProducts ps c ''rating_desc''
     = sort_key (\<lambda>p. rankDesc (rating p)) (filterProducts ps c)"
  unfolding filteredAndSortedProducts_def
proof (rule canonical_sort)
  have n: "set (filterProducts ps c) \<subseteq> {p. rating p \<noteq> NaN}"
    by (auto simp: filterProducts_def dest: matchesFilter_not_NaN)
  show "sorted_wrt (\<lambda>a b. rankDesc (rating a) \<le> rankDesc (rating b))
          (array_sort (compareFn ''rating_desc'') (filterProducts ps c))"
    by (rule sorted_array_sort[where A = "{p. rating p \<noteq> NaN}", OF _ _ _ n])
       (auto simp: gt_rating_desc rankDesc_le intro: num_lt_le num_le_total)
  fix k
  show "filter (\<lambda>p. rankDesc (rating p) = k) (array_sort (compareFn ''rating_desc'') (filterProducts ps c))
        = filter (\<lambda>p. rankDesc (rating p) = k) (filterProducts ps c)"
  proof (rule filter_array_sort)
    fix x y :: Product assume "rankDesc (rating x) = k" "rankDesc (rating y) = k"
    then have "rating x = rating y" by (auto intro: rankDesc_inj)
    then show "\<not> num_gt (SortCompare (compareFn ''rating_desc'') x y) (Fin 0)"
      by (simp add: gt_rating_desc num_lt_irrefl)
  qed
qed

text \<open>
  C2. The derived list is non-decreasing in price under \<open>price_asc\<close>, non-increasing
  in price under \<open>price_desc\<close> and non-increasing in rating under \<open>rating_desc\<close>; the
  sort is stable (the products of one price, respectively one rating, keep the order the
  filter gave them); under \<open>relevance\<close> the derived list is the filter's output as it is.
  The filter passes no product whose price or rating is NaN, which is why the order holds
  for every product list.
\<close>

theorem sort_keys_order:
  "sorted_wrt (\<lambda>a b. num_le (price a) (price b)) (filteredAndSortedProducts ps c ''price_asc'')
   \<and> sorted_wrt (\<lambda>a b. num_le (price b) (price a)) (filteredAndSortedProducts ps c ''price_desc'')
   \<and> sorted_wrt (\<lambda>a b. num_le (rating b) (rating a)) (filteredAndSortedProducts ps c ''rating_desc'')
   \<and> filter (\<lambda>p. price p = x) (filteredAndSortedProducts ps c ''price_asc'')
       = filter (\<lambda>p. price p = x) (filterProducts ps c)
   \<and> filter (\<lambda>p. price p = x) (filteredAndSortedProducts ps c ''price_desc'')
       = filter (\<lambda>p. price p = x) (filterProducts ps c)
   \<and> filter (\<lambda>p. rating p = x) (filteredAndSortedProducts ps c ''rating_desc'')
       = filter (\<lambda>p. rating p = x) (filterProducts ps c)
   \<and> filteredAndSortedProducts ps c ''relevance'' = filterProducts ps c"
  using sorted_price_asc sorted_price_desc sorted_rating_desc
    stable_price_asc stable_price_desc stable_rating_desc relevance_keeps_order
  by blast

subsection \<open>Facets\<close>

lemma new_Set_aux:
  "distinct acc \<Longrightarrow> distinct (foldl set_add acc xs) \<and> set (foldl set_add acc xs) = set acc \<union> set xs"
  by (induction xs arbitrary: acc) (auto simp: set_add_def)

lemma new_Set_distinct: "distinct (new_Set xs)"
  using new_Set_aux[of "[]" xs] by (simp add: new_Set_def)

lemma new_Set_set: "set (new_Set xs) = set xs"
  using new_Set_aux[of "[]" xs] by (simp add: new_Set_def)

text \<open>
  C9. The category list and the brand list each hold every category, respectively
  brand, that occurs in the product list, and hold it once.
\<close>

theorem facets_once:
  "distinct (categories ps) \<and> set (categories ps) = category ` set ps
   \<and> distinct (brands ps) \<and> set (brands ps) = brand ` set ps"
  by (simp add: categories_def brands_def new_Set_distinct new_Set_set)

subsection \<open>The engine on the scenarios\<close>

lemma scenario_price_asc:
  "map pid (filteredAndSortedProducts scenarioProducts noCriteria ''price_asc'') = [''c'', ''a'', ''b'']"
  by code_simp

lemma scenario_min_rating:
  "map pid (filteredAndSortedProducts scenarioProducts (noCriteria\<lparr>minRating := Fin 4\<rparr>) ''relevance'')
     = [''b'', ''c'']"
  by code_simp

section \<open>Purity of the derivation\<close>

lemma derive_op_eq:
  assumes "r < length h"
  shows "derive_op r c k h = Some (h @ [filteredAndSortedProducts (h ! r) c k], length h)"
  using assms
  by (simp add: derive_op_def array_filter_op_def array_sort_op_def deref_def alloc_def
      filteredAndSortedProducts_def filterProducts_def nth_append)

text \<open>
  C3. On a store that holds the product array, the derivation returns a result, and it
  is a function of its inputs: the returned array holds the derived list, which depends
  on the array's contents, the criteria and the sort key only, and a second derivation
  from the same inputs returns an array with the same contents. It does not touch the
  input: every array of the store before the call, the product array among them, is
  unchanged after it, and the result is a new array.
\<close>

theorem derive_pure:
  assumes "r < length h"
  shows "\<exists>h' r'. derive_op r c k h = Some (h', r')
     \<and> deref h' r' = Some (filteredAndSortedProducts (h ! r) c k)
     \<and> take (length h) h' = h
     \<and> deref h' r = deref h r
     \<and> r' \<noteq> r
     \<and> (\<exists>h'' r''. derive_op r c k h' = Some (h'', r'') \<and> deref h'' r'' = deref h' r'
            \<and> take (length h) h'' = h)"
proof -
  let ?out = "filteredAndSortedProducts (h ! r) c k"
  let ?h' = "h @ [?out]"
  have 1: "derive_op r c k h = Some (?h', length h)"
    using assms by (rule derive_op_eq)
  have r': "r < length ?h'" using assms by simp
  have same: "?h' ! r = h ! r" using assms by (simp add: nth_append)
  have 2: "derive_op r c k ?h' = Some (?h' @ [?out], length ?h')"
    using derive_op_eq[OF r', of c k] same by simp
  have a: "deref ?h' (length h) = Some ?out" by (simp add: deref_def)
  have b: "deref ?h' r = deref h r" using assms by (simp add: deref_def nth_append)
  have c: "deref (?h' @ [?out]) (length ?h') = deref ?h' (length h)"
    by (simp add: deref_def nth_append)
  have d: "length h \<noteq> r" using assms by simp
  have e: "take (length h) (?h' @ [?out]) = h" by simp
  from 1 2 a b c d e show ?thesis by simp
qed

theorem derive_pure_witness:
  "(0::nat) < length [scenarioProducts]
   \<and> (\<exists>h' r'. derive_op 0 noCriteria ''price_asc'' [scenarioProducts] = Some (h', r')
         \<and> deref h' r' = Some (filteredAndSortedProducts scenarioProducts noCriteria ''price_asc'')
         \<and> deref h' 0 = Some scenarioProducts
         \<and> r' \<noteq> 0)"
proof -
  have l: "(0::nat) < length [scenarioProducts]" by simp
  have d: "deref [scenarioProducts] 0 = Some scenarioProducts" by (simp add: deref_def)
  from derive_pure[OF l, of noCriteria "''price_asc''"] l d show ?thesis by auto
qed

section \<open>Properties of the view controller\<close>

subsection \<open>What the effects leave alone\<close>

lemma commit_view [simp]: "view (commit prev s) = view s"
  by (simp add: commit_def Let_def notifEffect_def productsEffect_def viewEffect_def)

lemma commit_loginModal [simp]: "isLoginModalOpen (commit prev s) = isLoginModalOpen s"
  by (simp add: commit_def Let_def notifEffect_def productsEffect_def viewEffect_def)

lemma commit_closes:
  "view prev \<noteq> view s \<Longrightarrow> \<not> isCartOpen (commit prev s) \<and> \<not> isMobileMenuOpen (commit prev s)"
  by (simp add: commit_def Let_def viewEffect_def)

lemma run_append: "run (es @ fs) s = run fs (run es s)"
  by (induction es arbitrary: s) simp_all

lemma view_not_admin_inShell: "view s \<noteq> Admin \<Longrightarrow> inShell s"
  by (simp add: inShell_def renderApp_def)

lemma mounted_view: "view (mount (initialApp a n)) = Store"
  by (simp add: mount_def initialApp_def viewEffect_def productsEffect_def notifEffect_def)

subsection \<open>Access to the admin view\<close>




text \<open>
  C10. With the view at \<open>admin\<close> and a caller who is not logged in or has no role,
  the standard shell is rendered with the store content and without the footer (the
  footer's condition reads the view's name); rendering leaves the view at \<open>admin\<close>.
\<close>

theorem admin_fallthrough:
  assumes "view s = Admin" and "\<not> (isLoggedIn (auth s) \<and> role (auth s) \<noteq> None)"
  shows "(\<exists>sh. renderApp s = ShellPage sh \<and> content sh = StoreView \<and> \<not> footer sh
           \<and> footer sh = (\<not> startsWith (viewName (view s)) ''admin''))
         \<and> view (commit s s) = Admin"
  using assms
  by (auto simp: renderApp_def startsWith_def)

theorem admin_fallthrough_witness:
  "view (session loggedOut 0 [ClickAdminLogin, LoginSuccess]) = Admin
   \<and> \<not> (isLoggedIn (auth (session loggedOut 0 [ClickAdminLogin, LoginSuccess]))
         \<and> role (auth (session loggedOut 0 [ClickAdminLogin, LoginSuccess])) \<noteq> None)
   \<and> (\<exists>sh. renderApp (session loggedOut 0 [ClickAdminLogin, LoginSuccess]) = ShellPage sh
         \<and> content sh = StoreView \<and> \<not> footer sh)"
proof -
  have a: "view (session loggedOut 0 [ClickAdminLogin, LoginSuccess]) = Admin" by code_simp
  have b: "\<not> (isLoggedIn (auth (session loggedOut 0 [ClickAdminLogin, LoginSuccess]))
         \<and> role (auth (session loggedOut 0 [ClickAdminLogin, LoginSuccess])) \<noteq> None)"
    by code_simp
  from admin_fallthrough[OF a b] a b show ?thesis by blast
qed

subsection \<open>Overlays\<close>

text \<open>
  C5, as the code has it. When an event changes the view, the cart panel and the mobile
  menu are closed afterwards. The login modal is not part of the view effect: it is as
  the event's handler left it.
\<close>

theorem view_change_closes:
  assumes "enabled e s" and "view (step e s) \<noteq> view s"
  shows "\<not> isCartOpen (step e s) \<and> \<not> isMobileMenuOpen (step e s)
         \<and> isLoginModalOpen (step e s) = isLoginModalOpen (handler e s)
         \<and> isLoginModalOpen (viewEffect t) = isLoginModalOpen t"
proof -
  from assms have st: "step e s = commit s (handler e s)" by (simp add: step_def)
  with assms(2) have "view s \<noteq> view (handler e s)" by auto
  from commit_closes[OF this] st show ?thesis by (simp add: viewEffect_def)
qed

theorem view_change_closes_witness:
  "enabled NavContact (session loggedOut 0 [OpenCart])
   \<and> view (step NavContact (session loggedOut 0 [OpenCart])) \<noteq> view (session loggedOut 0 [OpenCart])
   \<and> isCartOpen (session loggedOut 0 [OpenCart])
   \<and> \<not> isCartOpen (step NavContact (session loggedOut 0 [OpenCart]))
   \<and> \<not> isMobileMenuOpen (step NavContact (session loggedOut 0 [OpenCart]))"
proof -
  have a: "enabled NavContact (session loggedOut 0 [OpenCart])" by code_simp
  have b: "view (step NavContact (session loggedOut 0 [OpenCart])) \<noteq> view (session loggedOut 0 [OpenCart])"
    by code_simp
  have c: "isCartOpen (session loggedOut 0 [OpenCart])" by code_simp
  from view_change_closes[OF a b] a b c show ?thesis by simp
qed

text \<open>
  C5 as stated fails: with the login modal open on the store view, going to the contact
  view changes the view and the login modal is still open.
\<close>

theorem login_modal_stays_open:
  "view (session loggedOut 0 [ClickAdminLogin]) = Store
   \<and> enabled NavContact (session loggedOut 0 [ClickAdminLogin])
   \<and> view (step NavContact (session loggedOut 0 [ClickAdminLogin])) = Contact
   \<and> isLoginModalOpen (step NavContact (session loggedOut 0 [ClickAdminLogin]))"
  by code_simp

subsection \<open>Placing an order\<close>

lemma of_char_digitChar: "d < 10 \<Longrightarrow> (of_char (digitChar d) :: nat) = 48 + d"
  by (simp add: digitChar_def)

lemma digitChar_not_dash: "d < 10 \<Longrightarrow> digitChar d \<noteq> CHR ''-''"
proof
  assume d: "d < 10" and "digitChar d = CHR ''-''"
  then have "(of_char (digitChar d) :: nat) = of_char (CHR ''-'')" by simp
  with d show False by (simp add: of_char_digitChar)
qed

lemma showNat_no_dash: "CHR ''-'' \<notin> set (showNat n)"
proof (induction n rule: showNat.induct)
  case (1 n)
  show ?case
  proof (cases "n < 10")
    case True
    then show ?thesis using digitChar_not_dash[of n] by (simp add: showNat.simps[of n])
  next
    case False
    with 1 digitChar_not_dash[of "n mod 10"] show ?thesis
      by (simp add: showNat.simps[of n])
  qed
qed

lemma showNat_not_Nil: "showNat n \<noteq> []"
  by (simp add: showNat.simps[of n])

lemma readNat_showNat:
  "foldl (\<lambda>a c. 10 * a + (of_char c - 48)) (0::nat) (showNat n) = n"
proof (induction n rule: showNat.induct)
  case (1 n)
  show ?case
  proof (cases "n < 10")
    case True
    then show ?thesis by (simp add: showNat.simps[of n] of_char_digitChar)
  next
    case False
    with 1 have "foldl (\<lambda>a c. 10 * a + (of_char c - 48)) (0::nat) (showNat (n div 10)) = n div 10"
      by simp
    with False show ?thesis
      by (simp add: showNat.simps[of n] of_char_digitChar)
  qed
qed

lemma showNat_inj: "showNat n = showNat m \<Longrightarrow> n = m"
  by (metis readNat_showNat)

lemma split_at_sep:
  assumes "a @ c # b = a' @ c # b'" and "c \<notin> set a" and "c \<notin> set a'"
  shows "a = a' \<and> b = b'"
proof -
  have "takeWhile (\<lambda>x. x \<noteq> c) (a @ c # b) = a" using assms(2)
    by (auto simp: takeWhile_tail)
  moreover have "takeWhile (\<lambda>x. x \<noteq> c) (a' @ c # b') = a'" using assms(3)
    by (auto simp: takeWhile_tail)
  ultimately have "a = a'" using assms(1) by simp
  with assms(1) show ?thesis by simp
qed

lemma showNat_sep:
  assumes "showNat x @ CHR ''-'' # s = showNat y @ CHR ''-'' # t"
  shows "x = y \<and> s = t"
  using split_at_sep[OF assms showNat_no_dash showNat_no_dash] by (auto dest: showNat_inj)

lemma showNat_no_leading_dash: "showNat y @ u \<noteq> CHR ''-'' # v"
proof
  assume e: "showNat y @ u = CHR ''-'' # v"
  obtain d ds where "showNat y = d # ds" using showNat_not_Nil[of y] by (cases "showNat y") auto
  with e have "CHR ''-'' \<in> set (showNat y)" by simp
  with showNat_no_dash show False by blast
qed

lemma showInt_sep:
  assumes "showInt a @ CHR ''-'' # s = showInt b @ CHR ''-'' # t"
  shows "a = b \<and> s = t"
proof (cases "a < 0")
  case a: True
  show ?thesis
  proof (cases "b < 0")
    case True
    with a assms have "showNat (nat (- a)) @ CHR ''-'' # s = showNat (nat (- b)) @ CHR ''-'' # t"
      by (simp add: showInt_def)
    from showNat_sep[OF this] a True show ?thesis by auto
  next
    case False
    with a assms have "showNat (nat b) @ CHR ''-'' # t = CHR ''-'' # showNat (nat (- a)) @ CHR ''-'' # s"
      by (simp add: showInt_def)
    with showNat_no_leading_dash show ?thesis by blast
  qed
next
  case a: False
  show ?thesis
  proof (cases "b < 0")
    case True
    with a assms have "showNat (nat a) @ CHR ''-'' # s = CHR ''-'' # showNat (nat (- b)) @ CHR ''-'' # t"
      by (simp add: showInt_def)
    with showNat_no_leading_dash show ?thesis by blast
  next
    case False
    with a assms have "showNat (nat a) @ CHR ''-'' # s = showNat (nat b) @ CHR ''-'' # t"
      by (simp add: showInt_def)
    from showNat_sep[OF this] a False show ?thesis by auto
  qed
qed

lemma of_char_upper_digit36:
  "d < 36 \<Longrightarrow> (of_char (upperChar (digit36 d)) :: nat) = (if d < 10 then 48 + d else 55 + d)"
  by (simp add: upperChar_def digit36_def Let_def)

lemma upper_digit36_inj:
  assumes "d < 36" and "e < 36" and "upperChar (digit36 d) = upperChar (digit36 e)"
  shows "d = e"
proof -
  from assms(3) have "(of_char (upperChar (digit36 d)) :: nat) = of_char (upperChar (digit36 e))"
    by simp
  with assms(1,2) show ?thesis by (simp add: of_char_upper_digit36 split: if_splits)
qed

lemma kept_chars:
  "toUpperCase (substr (toString36 ds) 2 5)
     = map (\<lambda>d. upperChar (digit36 d)) (take 5 (map (\<lambda>d. d mod 36) ds))"
  by (simp add: toUpperCase_def substr_def toString36_def take_map)

lemma kept_chars_eq_iff:
  "(toUpperCase (substr (toString36 ds) 2 5) = toUpperCase (substr (toString36 es) 2 5))
   = (take 5 (map (\<lambda>d. d mod 36) ds) = take 5 (map (\<lambda>d. d mod 36) es))"
proof -
  let ?xs = "take 5 (map (\<lambda>d. d mod 36) ds)" and ?ys = "take 5 (map (\<lambda>d. d mod 36) es)"
  have "set ?xs \<union> set ?ys \<subseteq> {0..<36}"
    by (auto dest!: in_set_takeD)
  moreover have "inj_on (\<lambda>d. upperChar (digit36 d)) {0..<36}"
    by (rule inj_onI) (auto intro: upper_digit36_inj)
  ultimately have "inj_on (\<lambda>d. upperChar (digit36 d)) (set ?xs \<union> set ?ys)"
    by (rule inj_on_subset[rotated])
  then show ?thesis unfolding kept_chars by (rule inj_on_map_eq_map)
qed

lemma mkOrderId_eq_iff:
  "(mkOrderId now rnd = mkOrderId now' rnd')
   = (now = now' \<and> take 5 (map (\<lambda>d. d mod 36) rnd) = take 5 (map (\<lambda>d. d mod 36) rnd'))"
proof
  assume "mkOrderId now rnd = mkOrderId now' rnd'"
  then have "showInt now @ CHR ''-'' # toUpperCase (substr (toString36 rnd) 2 5)
           = showInt now' @ CHR ''-'' # toUpperCase (substr (toString36 rnd') 2 5)"
    by (simp add: mkOrderId_def)
  from showInt_sep[OF this]
  show "now = now' \<and> take 5 (map (\<lambda>d. d mod 36) rnd) = take 5 (map (\<lambda>d. d mod 36) rnd')"
    by (simp add: kept_chars_eq_iff)
next
  assume "now = now' \<and> take 5 (map (\<lambda>d. d mod 36) rnd) = take 5 (map (\<lambda>d. d mod 36) rnd')"
  then show "mkOrderId now rnd = mkOrderId now' rnd'"
    by (simp add: mkOrderId_def kept_chars_eq_iff)
qed

text \<open>An identifier, as the template literal prints it.\<close>

lemma mkOrderId_example:
  "mkOrderId 1700000001234 [18, 0, 11, 35, 2, 7] = ''ORD-1700000001234-I0BZ2''"
  by (simp add: mkOrderId_def showInt_def showNat.simps toString36_def substr_def toUpperCase_def
      upperChar_def digit36_def digitChar_def char_of_eq_nat2)

lemma checkout_then_place:
  assumes "view s \<noteq> Admin"
  shows "lastOrderId (run [CheckoutClick, PlaceOrder now rnd] s) = Some (mkOrderId now rnd)
         \<and> view (run [CheckoutClick, PlaceOrder now rnd] s) = Confirmation"
proof -
  from assms have "enabled CheckoutClick s" by (simp add: view_not_admin_inShell)
  then have v: "view (step CheckoutClick s) = Checkout"
    by (simp add: step_def handleCheckout_def setView_def)
  then have "enabled (PlaceOrder now rnd) (step CheckoutClick s)"
    by (simp add: onPage_def renderApp_def)
  then have "step (PlaceOrder now rnd) (step CheckoutClick s)
       = commit (step CheckoutClick s) (handlePlaceOrder now rnd (step CheckoutClick s))"
    by (simp add: step_def)
  then show ?thesis
    by (simp add: commit_def handlePlaceOrder_def Let_def clearCart_def setView_def
        notifEffect_def productsEffect_def viewEffect_def)
qed

text \<open>
  C6, as the code has it. Placing an order moves the view to \<open>confirmation\<close>, clears
  the cart (no item is left) and records a non-empty identifier. Two identifiers are
  equal exactly when the two invocations read the same millisecond and random numbers
  with the same first five digits in base 36; otherwise they differ.
\<close>

theorem place_order:
  assumes "enabled (PlaceOrder now rnd) s"
  shows "view (step (PlaceOrder now rnd) s) = Confirmation
     \<and> itemCount (step (PlaceOrder now rnd) s) = itemCount (clearCart s)
     \<and> itemCount (step (PlaceOrder now rnd) s) = 0
     \<and> lastOrderId (step (PlaceOrder now rnd) s) = Some (mkOrderId now rnd)
     \<and> mkOrderId now rnd \<noteq> []
     \<and> ((mkOrderId now rnd = mkOrderId now' rnd')
          = (now = now' \<and> take 5 (map (\<lambda>d. d mod 36) rnd) = take 5 (map (\<lambda>d. d mod 36) rnd')))"
proof -
  from assms have "step (PlaceOrder now rnd) s = commit s (handlePlaceOrder now rnd s)"
    by (simp add: step_def)
  moreover have "itemCount (commit s (handlePlaceOrder now rnd s)) = 0"
    "lastOrderId (commit s (handlePlaceOrder now rnd s)) = Some (mkOrderId now rnd)"
    "view (handlePlaceOrder now rnd s) = Confirmation"
    "itemCount (clearCart s) = 0"
    by (simp_all add: commit_def handlePlaceOrder_def Let_def clearCart_def setView_def
        notifEffect_def productsEffect_def viewEffect_def)
  moreover have "mkOrderId now rnd \<noteq> []" by (simp add: mkOrderId_def)
  ultimately show ?thesis using mkOrderId_eq_iff by simp
qed

theorem place_order_witness:
  "enabled (PlaceOrder 1700000000000 [18, 0, 0, 0, 0, 7]) (session loggedOut 2 [CheckoutClick])
   \<and> view (step (PlaceOrder 1700000000000 [18, 0, 0, 0, 0, 7]) (session loggedOut 2 [CheckoutClick]))
       = Confirmation
   \<and> itemCount (session loggedOut 2 [CheckoutClick]) = 2
   \<and> itemCount (step (PlaceOrder 1700000000000 [18, 0, 0, 0, 0, 7]) (session loggedOut 2 [CheckoutClick]))
       = 0
   \<and> lastOrderId (step (PlaceOrder 1700000000000 [18, 0, 0, 0, 0, 7]) (session loggedOut 2 [CheckoutClick]))
       = Some ''ORD-1700000000000-I0000''"
proof -
  have v: "view (session loggedOut 2 [CheckoutClick]) = Checkout" by code_simp
  then have e: "enabled (PlaceOrder 1700000000000 [18, 0, 0, 0, 0, 7]) (session loggedOut 2 [CheckoutClick])"
    by (simp add: onPage_def renderApp_def)
  have i: "itemCount (session loggedOut 2 [CheckoutClick]) = 2" by code_simp
  have m: "mkOrderId 1700000000000 [18, 0, 0, 0, 0, 7] = ''ORD-1700000000000-I0000''"
    by (simp add: mkOrderId_def showInt_def showNat.simps toString36_def substr_def
        toUpperCase_def upperChar_def digit36_def digitChar_def char_of_eq_nat2)
  from place_order[OF e, of 0 "[]"]
  have "view (step (PlaceOrder 1700000000000 [18, 0, 0, 0, 0, 7]) (session loggedOut 2 [CheckoutClick]))
          = Confirmation"
    and "itemCount (step (PlaceOrder 1700000000000 [18, 0, 0, 0, 0, 7]) (session loggedOut 2 [CheckoutClick]))
          = 0"
    and "lastOrderId (step (PlaceOrder 1700000000000 [18, 0, 0, 0, 0, 7]) (session loggedOut 2 [CheckoutClick]))
          = Some (mkOrderId 1700000000000 [18, 0, 0, 0, 0, 7])"
    by blast+
  with e i m show ?thesis by (simp only: simp_thms)
qed

text \<open>
  C6 as stated fails: two orders placed in one session, reading the same millisecond
  and two different random numbers (printed \<^verbatim>\<open>0.i00007\<close> and \<^verbatim>\<open>0.i0000c\<close>) that
  agree on the five digits kept, get the same identifier.
\<close>

theorem order_id_collision:
  "lastOrderId (session loggedOut 2 [CheckoutClick, PlaceOrder 1700000000000 [18, 0, 0, 0, 0, 7]])
   = lastOrderId (session loggedOut 2 [CheckoutClick, PlaceOrder 1700000000000 [18, 0, 0, 0, 0, 7],
                                       CheckoutClick, PlaceOrder 1700000000000 [18, 0, 0, 0, 0, 12]])"
proof -
  let ?s0 = "mount (initialApp loggedOut 2)"
  let ?a = "[CheckoutClick, PlaceOrder 1700000000000 [18, 0, 0, 0, 0, 7]]"
  let ?b = "[CheckoutClick, PlaceOrder 1700000000000 [18, 0, 0, 0, 0, 12]]"
  have v0: "view ?s0 \<noteq> Admin" by (simp add: mounted_view)
  have 1: "lastOrderId (run ?a ?s0) = Some (mkOrderId 1700000000000 [18, 0, 0, 0, 0, 7])"
    and v1: "view (run ?a ?s0) \<noteq> Admin"
    using checkout_then_place[OF v0, of 1700000000000 "[18, 0, 0, 0, 0, 7]"] by simp_all
  have 2: "lastOrderId (run ?b (run ?a ?s0)) = Some (mkOrderId 1700000000000 [18, 0, 0, 0, 0, 12])"
    using checkout_then_place[OF v1, of 1700000000000 "[18, 0, 0, 0, 0, 12]"] by simp
  have 3: "mkOrderId 1700000000000 [18, 0, 0, 0, 0, 7] = mkOrderId 1700000000000 [18, 0, 0, 0, 0, 12]"
    by (simp add: mkOrderId_eq_iff)
  have "run (?a @ ?b) ?s0 = run ?b (run ?a ?s0)" by (rule run_append)
  with 1 2 3 show ?thesis by (simp add: session_def)
qed

subsection \<open>Loading the products\<close>

lemma commit_loading:
  "(isLoading (commit prev s) = isLoading s \<and> error (commit prev s) = error s)
   \<or> (isLoading (commit prev s) \<and> error (commit prev s) = None)"
  by (simp add: commit_def Let_def notifEffect_def productsEffect_def viewEffect_def)

lemma handler_loading:
  "(isLoading (handler e s) = isLoading s \<and> error (handler e s) = error s)
   \<or> \<not> isLoading (handler e s)"
  by (cases e)
    (simp_all add: setView_def handleLogout_def logout_def handleWishlistClick_def
      handleCheckout_def handlePlaceOrder_def clearCart_def login_def handleLoginSuccess_def
      productsResolved_def productsRejected_def notifsResolved_def notifsRejected_def Let_def)

lemma step_loadInv: "loadInv s \<Longrightarrow> loadInv (step e s)"
  using commit_loading[of s "handler e s"] handler_loading[of e s]
  by (auto simp: loadInv_def step_def)

lemma run_loadInv: "loadInv s \<Longrightarrow> loadInv (run es s)"
  by (induction es arbitrary: s) (simp_all add: step_loadInv)

lemma mount_loadInv: "loadInv (mount (initialApp a n))"
  by (simp add: loadInv_def mount_def initialApp_def viewEffect_def productsEffect_def
      notifEffect_def)

lemma gridStates_loadInv: "loadInv s \<Longrightarrow> gridStates (renderGrid s) = 1"
  by (auto simp: loadInv_def gridStates_def renderGrid_def)

text \<open>
  C7. On the first render and after every sequence of events of a session the product
  grid shows exactly one of the loading skeleton, the error panel and the product grid. When a product load
  fails, the error message is set, loading has ended, no further load is started (the
  number of calls and the product list are as before), and the grid shows the error
  panel and neither the skeleton nor the products.
\<close>

theorem grid_exclusive:
  assumes "enabled ProductsRejected s"
  shows "gridStates (renderGrid (session a n es)) = 1
   \<and> gridStates (renderGrid (initialApp a n)) = 1
   \<and> error (step ProductsRejected s)
       = Some ''Failed to load products. Please check your API key and network connection.''
   \<and> \<not> isLoading (step ProductsRejected s)
   \<and> productCalls (step ProductsRejected s) = productCalls s
   \<and> products (step ProductsRejected s) = products s
   \<and> showError (renderGrid (step ProductsRejected s))
   \<and> \<not> showSkeleton (renderGrid (step ProductsRejected s))
   \<and> \<not> showProducts (renderGrid (step ProductsRejected s))"
proof -
  have "gridStates (renderGrid (session a n es)) = 1"
    unfolding session_def by (intro gridStates_loadInv run_loadInv mount_loadInv)
  moreover have "step ProductsRejected s
     = s\<lparr>error := Some ''Failed to load products. Please check your API key and network connection.'',
         console := console s @ [''Error''], isLoading := False,
         productPending := productPending s - 1\<rparr>"
    using assms by (simp add: step_def commit_def productsRejected_def Let_def)
  moreover have "gridStates (renderGrid (initialApp a n)) = 1"
    by (simp add: gridStates_def renderGrid_def initialApp_def)
  ultimately show ?thesis by (simp add: renderGrid_def)
qed

theorem grid_exclusive_witness:
  "enabled ProductsRejected (session loggedOut 0 [])
   \<and> showSkeleton (renderGrid (session loggedOut 0 []))
   \<and> gridStates (renderGrid (session loggedOut 0 [ProductsRejected, NavContact, NavStore])) = 1
   \<and> showError (renderGrid (step ProductsRejected (session loggedOut 0 [])))
   \<and> \<not> showSkeleton (renderGrid (step ProductsRejected (session loggedOut 0 [])))
   \<and> \<not> showProducts (renderGrid (step ProductsRejected (session loggedOut 0 [])))
   \<and> productCalls (step ProductsRejected (session loggedOut 0 [])) = 1"
proof -
  have e: "enabled ProductsRejected (session loggedOut 0 [])" by code_simp
  have k: "showSkeleton (renderGrid (session loggedOut 0 []))" by code_simp
  have c: "productCalls (session loggedOut 0 []) = 1" by code_simp
  from grid_exclusive[OF e, of loggedOut 0 "[ProductsRejected, NavContact, NavStore]"] e k c
  show ?thesis by simp
qed

subsection \<open>Loading the notifications\<close>

text \<open>
  C8. When the caller is not logged in or has no role, the notification effect empties
  the list and calls nothing; logging out empties the list without a call. When a
  notification load fails, the list, the error cell, the grid and the page are as
  before, no call is made, and one line is written to the console.
\<close>

theorem notifications_policy:
  assumes "\<not> (isLoggedIn (auth s) \<and> role (auth s) \<noteq> None)"
      and "isLoggedIn (auth t)"
      and "enabled NotifsRejected u"
  shows "adminNotifications (notifEffect s) = [] \<and> notifCalls (notifEffect s) = notifCalls s
         \<and> adminNotifications (step ClickLogout t) = []
         \<and> notifCalls (step ClickLogout t) = notifCalls t
         \<and> adminNotifications (step NotifsRejected u) = adminNotifications u
         \<and> notifCalls (step NotifsRejected u) = notifCalls u
         \<and> error (step NotifsRejected u) = error u
         \<and> renderGrid (step NotifsRejected u) = renderGrid u
         \<and> renderApp (step NotifsRejected u) = renderApp u
         \<and> console (step NotifsRejected u)
             = console u @ [''Failed to fetch admin notifications for header'']"
proof -
  have 1: "adminNotifications (notifEffect s) = [] \<and> notifCalls (notifEffect s) = notifCalls s"
    using assms(1) by (auto simp: notifEffect_def)
  from assms(2) have en: "enabled ClickLogout t"
    by (auto simp: onPage_def renderApp_def)
  have "commit t (handleLogout t) =
     (let s1 = notifEffect (handleLogout t) in if view t = Store then s1 else viewEffect s1)"
    using assms(2)
    by (simp add: commit_def handleLogout_def logout_def loggedOut_def setView_def Let_def)
  then have 2: "adminNotifications (step ClickLogout t) = []
                \<and> notifCalls (step ClickLogout t) = notifCalls t"
    using en by (simp add: step_def Let_def notifEffect_def viewEffect_def handleLogout_def
        logout_def loggedOut_def setView_def)
  have st: "step NotifsRejected u = commit u (notifsRejected u)"
    using assms(3) by (simp add: step_def)
  have "commit u (notifsRejected u) = notifsRejected u"
    by (simp add: commit_def notifsRejected_def)
  with st have "step NotifsRejected u = notifsRejected u" by simp
  then have 3: "adminNotifications (step NotifsRejected u) = adminNotifications u
         \<and> notifCalls (step NotifsRejected u) = notifCalls u
         \<and> error (step NotifsRejected u) = error u
         \<and> renderGrid (step NotifsRejected u) = renderGrid u
         \<and> renderApp (step NotifsRejected u) = renderApp u
         \<and> console (step NotifsRejected u)
             = console u @ [''Failed to fetch admin notifications for header'']"
    by (simp add: notifsRejected_def renderGrid_def renderApp_def)
  from 1 2 3 show ?thesis by simp
qed

theorem notifications_policy_witness:
  "\<not> (isLoggedIn (auth (session loggedOut 0 [])) \<and> role (auth (session loggedOut 0 [])) \<noteq> None)
   \<and> isLoggedIn (auth (session adminAuth 0 []))
   \<and> enabled NotifsRejected (session adminAuth 0 [])
   \<and> notifCalls (session adminAuth 0 []) = 1
   \<and> adminNotifications (step ClickLogout (session adminAuth 0 [])) = []
   \<and> notifCalls (step ClickLogout (session adminAuth 0 [])) = 1
   \<and> notifCalls (step NotifsRejected (session adminAuth 0 [])) = 1
   \<and> adminNotifications (step NotifsRejected (session adminAuth 0 []))
       = adminNotifications (session adminAuth 0 [])"
proof -
  have a: "\<not> (isLoggedIn (auth (session loggedOut 0 []))
             \<and> role (auth (session loggedOut 0 [])) \<noteq> None)" by code_simp
  have b: "isLoggedIn (auth (session adminAuth 0 []))" by code_simp
  have c: "enabled NotifsRejected (session adminAuth 0 [])" by code_simp
  have d: "notifCalls (session adminAuth 0 []) = 1" by code_simp
  from notifications_policy[OF a b c] a b c d show ?thesis by simp
qed

end
